theory Spec2Isabelle
  imports Complex_Main "HOL-Library.Sublist"
begin

section \<open>Python string primitives\<close>

text \<open>
  The service works on Python \<open>str\<close> values. A text is modelled as a list of code points;
  the model covers the code points 0 to 255 (Latin-1), which is what an Isabelle
  \<open>char\<close> holds, and on this range \<open>lower\<close>, \<open>isspace\<close> and the regular-expression
  class \<open>\w\<close> are the ones of CPython 3. Python \<open>float\<close> values are modelled as exact
  reals, Python \<open>int\<close> values as \<open>int\<close>.
\<close>

definition code_point :: "char \<Rightarrow> nat" where
  "code_point c = of_char c"

text \<open>\<open>str.isspace\<close> on one character; \<open>strip\<close> and \<open>split\<close> both use it.\<close>

definition is_space :: "char \<Rightarrow> bool" where
  "is_space c = (let n = code_point c in
     (9 \<le> n \<and> n \<le> 13) \<or> (28 \<le> n \<and> n \<le> 32) \<or> n = 133 \<or> n = 160)"

text \<open>The class \<open>\w\<close> of \<open>re\<close> on a \<open>str\<close> pattern: alphanumeric characters and the underscore.\<close>

definition is_word :: "char \<Rightarrow> bool" where
  "is_word c = (let n = code_point c in
     (48 \<le> n \<and> n \<le> 57) \<or> (65 \<le> n \<and> n \<le> 90) \<or> n = 95 \<or> (97 \<le> n \<and> n \<le> 122)
     \<or> n = 170 \<or> n = 178 \<or> n = 179 \<or> n = 181 \<or> n = 185 \<or> n = 186
     \<or> (188 \<le> n \<and> n \<le> 190) \<or> (192 \<le> n \<and> n \<le> 214) \<or> (216 \<le> n \<and> n \<le> 246)
     \<or> (248 \<le> n \<and> n \<le> 255))"

definition lower_char :: "char \<Rightarrow> char" where
  "lower_char c = (let n = code_point c in
     if (65 \<le> n \<and> n \<le> 90) \<or> (192 \<le> n \<and> n \<le> 214) \<or> (216 \<le> n \<and> n \<le> 222)
     then char_of (n + 32) else c)"

text \<open>\<open>str.lower()\<close>\<close>

definition lower :: "string \<Rightarrow> string" where
  "lower s = map lower_char s"

text \<open>\<open>str.strip()\<close>\<close>

definition strip :: "string \<Rightarrow> string" where
  "strip s = rev (dropWhile is_space (rev (dropWhile is_space s)))"

text \<open>
  \<open>str.split()\<close> with no separator: the maximal runs of non-whitespace characters.
  The first argument is the run read so far.
\<close>

fun split_run :: "string \<Rightarrow> string \<Rightarrow> string list" where
  "split_run cur [] = (if cur = [] then [] else [cur])"
| "split_run cur (c # cs) =
     (if is_space c then (if cur = [] then split_run [] cs else cur # split_run [] cs)
      else split_run (cur @ [c]) cs)"

definition split :: "string \<Rightarrow> string list" where
  "split s = split_run [] s"

text \<open>\<open>m in s\<close> on strings: \<open>m\<close> occurs in \<open>s\<close> as a contiguous substring.\<close>

fun str_contains :: "string \<Rightarrow> string \<Rightarrow> bool" where
  "str_contains m [] = (m = [])"
| "str_contains m (c # cs) = (prefix m (c # cs) \<or> str_contains m cs)"

text \<open>
  The assertion \<open>\b\<close> of \<open>re\<close> at position \<open>i\<close> of \<open>s\<close>: never on the empty string,
  otherwise exactly one of the characters before and at \<open>i\<close> is a word character
  (a missing character counts as a non-word character).
\<close>

definition word_boundary :: "string \<Rightarrow> nat \<Rightarrow> bool" where
  "word_boundary s i =
     (if s = [] then False
      else (let that = (0 < i \<and> is_word (s ! (i - 1)));
                this = (i < length s \<and> is_word (s ! i))
            in this \<noteq> that))"

text \<open>
  \<open>re.search(r'\b' + re.escape(marker) + r'\b', s)\<close> finds a match: the escaped marker
  matches itself literally, and the search tries every start position.
\<close>

definition re_search_bounded :: "string \<Rightarrow> string \<Rightarrow> bool" where
  "re_search_bounded marker s =
     list_ex (\<lambda>i. word_boundary s i \<and> take (length marker) (drop i s) = marker
                 \<and> word_boundary s (i + length marker))
       [0..<Suc (length s)]"

section \<open>Discourse markers\<close>

text \<open>The elements of the set literal \<open>DISCOURSE_MARKERS\<close>, as written in the source.\<close>

definition DISCOURSE_MARKERS_literal :: "string list" where
  "DISCOURSE_MARKERS_literal =
   [''also'', ''and'', ''besides'', ''furthermore'', ''moreover'', ''additionally'', ''plus'',
    ''but'', ''however'', ''although'', ''though'', ''yet'', ''still'', ''nevertheless'',
    ''nonetheless'', ''on the other hand'', ''in contrast'', ''conversely'',
    ''because'', ''since'', ''therefore'', ''thus'', ''so'', ''hence'', ''consequently'',
    ''as a result'',
    ''then'', ''first'', ''next'', ''finally'', ''meanwhile'', ''afterwards'', ''previously'',
    ''subsequently'',
    ''well'', ''now'', ''okay'', ''right'', ''so'', ''anyway'', ''actually'', ''basically'',
    ''like'', ''sort of'', ''kind of'', ''i think'', ''i guess'', ''maybe'', ''perhaps'',
    ''probably'',
    ''yes'', ''yeah'', ''no'', ''right'', ''okay'', ''sure'', ''absolutely'']"

text \<open>
  A Python set holds each element once. Its iteration order is not specified; the model
  iterates in the order in which \<open>remdups\<close> leaves the literal.
\<close>

definition DISCOURSE_MARKERS :: "string list" where
  "DISCOURSE_MARKERS = remdups DISCOURSE_MARKERS_literal"

definition extract_discourse_markers :: "string \<Rightarrow> string list" where
  "extract_discourse_markers text =
     (let text_lower = lower text
      in filter (\<lambda>marker. str_contains marker text_lower \<and> re_search_bounded marker text_lower)
           DISCOURSE_MARKERS)"

section \<open>Request and response models\<close>

text \<open>
  An exception raised while a request is handled. The only calls of the service that can
  raise are calls into the external libraries, and a division.
\<close>

datatype py_exception = ZeroDivisionError | LibraryError string

fun str_of :: "py_exception \<Rightarrow> string" where
  "str_of ZeroDivisionError = ''division by zero''"
| "str_of (LibraryError msg) = msg"

section \<open>External libraries\<close>

text \<open>
  The libraries the service calls are parameters of the model. \<open>nlp\<close> is the spaCy
  pipeline, \<open>None\<close> when the model was not found; applied to a text it yields the
  \<open>pos_\<close> tag of each token. \<open>coast\<close> is \<open>coast.orality_score\<close>, \<open>None\<close> when
  \<open>COAST_AVAILABLE\<close> is false. \<open>lingfeat\<close> is the extraction chain of LingFeat, \<open>None\<close>
  when \<open>LINGFEAT_AVAILABLE\<close> is false; it yields the feature dictionary. Each call either
  raises or returns.
\<close>

record textstat =
  flesch_reading_ease :: "string \<Rightarrow> py_exception + real"
  flesch_kincaid_grade :: "string \<Rightarrow> py_exception + real"
  gunning_fog :: "string \<Rightarrow> py_exception + real"
  smog_index :: "string \<Rightarrow> py_exception + real"
  automated_readability_index :: "string \<Rightarrow> py_exception + real"
  coleman_liau_index :: "string \<Rightarrow> py_exception + real"

record libraries =
  nlp :: "(string \<Rightarrow> py_exception + string list) option"
  coast :: "(string \<Rightarrow> py_exception + real) option"
  textstat_module :: textstat
  lingfeat :: "(string \<Rightarrow> py_exception + (string \<rightharpoonup> real)) option"

section \<open>Models, continued\<close>

text \<open>
  The field \<open>text\<close> of \<open>Segment\<close> and of \<open>SegmentResult\<close> is \<open>seg_text\<close> here. Where a
  local variable of the source has the name of a field, the variable carries a prime.
\<close>

record Segment =
  segment_index :: int
  seg_text :: string

record POSCounts =
  nouns :: int
  verbs :: int
  adjectives :: int
  adverbs :: int
  pronouns :: int
  prepositions :: int
  conjunctions :: int
  interjections :: int

record ReadabilityMetrics =
  flesch_reading_ease :: real
  flesch_kincaid_grade :: real
  gunning_fog :: real
  smog_index :: real
  automated_readability_index :: real
  coleman_liau_index :: real

record LingFeatSummary =
  lexical_diversity :: real
  avg_word_length :: real
  sentence_complexity :: real

record SegmentResult =
  segment_index :: int
  seg_text :: string
  orality_score :: real
  parts_of_speech :: POSCounts
  discourse_markers :: "string list"
  readability_score :: real
  readability_metrics :: "ReadabilityMetrics option"
  lingfeat_summary :: "LingFeatSummary option"

record AnalysisRequest =
  segments :: "Segment list"

record AnalysisResponse =
  success :: bool
  error :: "string option"
  results :: "SegmentResult list"

text \<open>\<open>raise HTTPException(status_code=..., detail=...)\<close>\<close>

datatype http_error = HTTPException int string

text \<open>The models' default values: \<open>POSCounts()\<close> and \<open>ReadabilityMetrics()\<close>.\<close>

definition POSCounts_default :: POSCounts where
  "POSCounts_default =
     \<lparr>nouns = 0, verbs = 0, adjectives = 0, adverbs = 0, pronouns = 0, prepositions = 0,
      conjunctions = 0, interjections = 0\<rparr>"

definition ReadabilityMetrics_default :: ReadabilityMetrics where
  "ReadabilityMetrics_default =
     \<lparr>flesch_reading_ease = 0, flesch_kincaid_grade = 0, gunning_fog = 0, smog_index = 0,
      automated_readability_index = 0, coleman_liau_index = 0\<rparr>"

section \<open>Analysis functions\<close>

subsection \<open>Parts of speech\<close>

text \<open>The body of the loop of \<open>analyze_pos\<close>: one token's tag is counted.\<close>

definition count_pos :: "POSCounts \<Rightarrow> string \<Rightarrow> POSCounts" where
  "count_pos counts pos =
     (if pos = ''NOUN'' \<or> pos = ''PROPN'' then counts\<lparr>nouns := nouns counts + 1\<rparr>
      else if pos = ''VERB'' \<or> pos = ''AUX'' then counts\<lparr>verbs := verbs counts + 1\<rparr>
      else if pos = ''ADJ'' then counts\<lparr>adjectives := adjectives counts + 1\<rparr>
      else if pos = ''ADV'' then counts\<lparr>adverbs := adverbs counts + 1\<rparr>
      else if pos = ''PRON'' then counts\<lparr>pronouns := pronouns counts + 1\<rparr>
      else if pos = ''ADP'' then counts\<lparr>prepositions := prepositions counts + 1\<rparr>
      else if pos = ''CCONJ'' \<or> pos = ''SCONJ''
        then counts\<lparr>conjunctions := conjunctions counts + 1\<rparr>
      else if pos = ''INTJ'' then counts\<lparr>interjections := interjections counts + 1\<rparr>
      else counts)"

definition analyze_pos :: "libraries \<Rightarrow> string \<Rightarrow> py_exception + POSCounts" where
  "analyze_pos libs text =
     (case nlp libs of
        None \<Rightarrow> Inr POSCounts_default
      | Some tagger \<Rightarrow>
          (case tagger text of
             Inl e \<Rightarrow> Inl e
           | Inr doc \<Rightarrow> Inr (foldl count_pos POSCounts_default doc)))"

subsection \<open>Readability\<close>

text \<open>The six calls inside the \<open>try\<close> block, in order; the first that raises ends it.\<close>

definition readability_calls :: "textstat \<Rightarrow> string \<Rightarrow> py_exception + ReadabilityMetrics" where
  "readability_calls ts text =
     (case textstat.flesch_reading_ease ts text of Inl e \<Rightarrow> Inl e | Inr fre \<Rightarrow>
     (case textstat.flesch_kincaid_grade ts text of Inl e \<Rightarrow> Inl e | Inr fkg \<Rightarrow>
     (case textstat.gunning_fog ts text of Inl e \<Rightarrow> Inl e | Inr gf \<Rightarrow>
     (case textstat.smog_index ts text of Inl e \<Rightarrow> Inl e | Inr smog \<Rightarrow>
     (case textstat.automated_readability_index ts text of Inl e \<Rightarrow> Inl e | Inr ari \<Rightarrow>
     (case textstat.coleman_liau_index ts text of Inl e \<Rightarrow> Inl e | Inr cli \<Rightarrow>
        Inr \<lparr>flesch_reading_ease = fre, flesch_kincaid_grade = fkg, gunning_fog = gf,
             smog_index = smog, automated_readability_index = ari,
             coleman_liau_index = cli\<rparr>))))))"

definition analyze_readability :: "libraries \<Rightarrow> string \<Rightarrow> real \<times> ReadabilityMetrics" where
  "analyze_readability libs text =
     (if strip text = [] then (0, ReadabilityMetrics_default)
      else (case readability_calls (textstat_module libs) text of
              Inr metrics \<Rightarrow>
                (let primary_score = max 0 (min 100 (ReadabilityMetrics.flesch_reading_ease metrics))
                 in (primary_score, metrics))
            | Inl e \<Rightarrow> (0, ReadabilityMetrics_default)))"

subsection \<open>Orality\<close>

text \<open>The division \<open>/\<close> of Python raises on a zero divisor.\<close>

definition truediv :: "real \<Rightarrow> real \<Rightarrow> py_exception + real" where
  "truediv a b = (if b = 0 then Inl ZeroDivisionError else Inr (a / b))"

definition personal_pronouns :: "string list" where
  "personal_pronouns = [''i'', ''you'', ''we'', ''me'', ''my'', ''your'', ''our'']"

definition contractions :: "string list" where
  "contractions = ['''m'', '''re'', '''ve'', '''ll'', '''d'', ''n't'', '''s'']"

text \<open>The three sums \<open>sum(1 for ... if ...)\<close> and the sum of the word lengths.\<close>

definition discourse_count :: "string \<Rightarrow> nat" where
  "discourse_count text =
     length (filter (\<lambda>marker. str_contains marker (lower text)) DISCOURSE_MARKERS)"

definition pronoun_count :: "string list \<Rightarrow> nat" where
  "pronoun_count words = length (filter (\<lambda>w. w \<in> set personal_pronouns) words)"

definition contraction_count :: "string \<Rightarrow> nat" where
  "contraction_count text =
     length (filter (\<lambda>c. str_contains c (lower text)) contractions)"

definition total_word_length :: "string list \<Rightarrow> nat" where
  "total_word_length words = sum_list (map length words)"

text \<open>
  The fallback of \<open>analyze_orality\<close>, from the test \<open>if not text.strip()\<close> to the end
  of the function. The two accumulators are rebound as the source updates them.
\<close>

definition heuristic_orality :: "string \<Rightarrow> py_exception + real" where
  "heuristic_orality text =
     (if strip text = [] then Inr 50
      else
       (let orality_indicators = (0::real);
            total_weight = (0::real);
            words = split (lower text);
            word_count = length words
        in if word_count = 0 then Inr 50
        else
         (case truediv (real (discourse_count text)) (real word_count) of
            Inl e \<Rightarrow> Inl e
          | Inr q1 \<Rightarrow>
         (let discourse_density = q1 * 100;
              orality_indicators = orality_indicators + min (discourse_density * 5) 25;
              total_weight = total_weight + 25
          in
         (case truediv (real (pronoun_count words)) (real word_count) of
            Inl e \<Rightarrow> Inl e
          | Inr q2 \<Rightarrow>
         (let pronoun_density = q2 * 100;
              orality_indicators = orality_indicators + min (pronoun_density * 3) 25;
              total_weight = total_weight + 25
          in
         (case (if word_count > 0
                then truediv (real (total_word_length words)) (real word_count)
                else Inr 5) of
            Inl e \<Rightarrow> Inl e
          | Inr avg_word_len \<Rightarrow>
         (let orality_indicators =
                (if avg_word_len < 4 then orality_indicators + 25
                 else if avg_word_len < 5 then orality_indicators + 15
                 else if avg_word_len < 6 then orality_indicators + 5
                 else orality_indicators);
              total_weight = total_weight + 25;
              orality_indicators =
                orality_indicators + min (real (contraction_count text * 5)) 25;
              total_weight = total_weight + 25
          in
          if total_weight > 0
          then (case truediv orality_indicators total_weight of
                  Inl e \<Rightarrow> Inl e
                | Inr q \<Rightarrow> Inr (q * 100))
          else Inr 50))))))))"

definition analyze_orality :: "libraries \<Rightarrow> string \<Rightarrow> py_exception + real" where
  "analyze_orality libs text =
     (case coast libs of
        Some coast_orality_score \<Rightarrow>
          (case coast_orality_score text of
             Inr score \<Rightarrow> Inr (min 100 (max 0 (score * 100)))
           | Inl e \<Rightarrow> heuristic_orality text)
      | None \<Rightarrow> heuristic_orality text)"

subsection \<open>LingFeat\<close>

text \<open>\<open>features.get(key, 0.0)\<close>\<close>

definition get_or :: "(string \<rightharpoonup> real) \<Rightarrow> string \<Rightarrow> real \<Rightarrow> real" where
  "get_or features key dflt = (case features key of Some v \<Rightarrow> v | None \<Rightarrow> dflt)"

definition analyze_lingfeat :: "libraries \<Rightarrow> string \<Rightarrow> LingFeatSummary option" where
  "analyze_lingfeat libs text =
     (case lingfeat libs of
        None \<Rightarrow> None
      | Some extract \<Rightarrow>
          if strip text = [] then None
          else (case extract text of
                  Inr features \<Rightarrow>
                    Some \<lparr>lexical_diversity = get_or features ''LexicalDiversity'' 0,
                          avg_word_length = get_or features ''AvgWordLength'' 0,
                          sentence_complexity = get_or features ''SentenceComplexity'' 0\<rparr>
                | Inl e \<Rightarrow> None))"

subsection \<open>One segment\<close>

text \<open>\<open>round(x, 2)\<close> on an exact value: to the nearest hundredth, a tie to the even one.\<close>

definition round2 :: "real \<Rightarrow> real" where
  "round2 x =
     (let y = x * 100; f = \<lfloor>y\<rfloor>; d = y - of_int f
      in of_int (if d < 1 / 2 then f else if 1 / 2 < d then f + 1
                 else if even f then f else f + 1) / 100)"

definition analyze_segment :: "libraries \<Rightarrow> Segment \<Rightarrow> py_exception + SegmentResult" where
  "analyze_segment libs segment =
     (let text = strip (Segment.seg_text segment) in
      (case analyze_pos libs text of
         Inl e \<Rightarrow> Inl e
       | Inr pos_counts \<Rightarrow>
          (let (readability_score', readability_metrics') = analyze_readability libs text in
           (case analyze_orality libs text of
              Inl e \<Rightarrow> Inl e
            | Inr orality_score' \<Rightarrow>
               (let discourse_markers' = extract_discourse_markers text;
                    lingfeat_summary' = analyze_lingfeat libs text
                in Inr \<lparr>segment_index = Segment.segment_index segment,
                        seg_text = text,
                        orality_score = round2 orality_score',
                        parts_of_speech = pos_counts,
                        discourse_markers = discourse_markers',
                        readability_score = round2 readability_score',
                        readability_metrics = Some readability_metrics',
                        lingfeat_summary = lingfeat_summary'\<rparr>)))))"

section \<open>The endpoint\<close>

text \<open>The \<open>for\<close> loop of \<open>analyze\<close>; the second argument is the list \<open>results\<close> so far.\<close>

fun analyze_loop ::
  "libraries \<Rightarrow> SegmentResult list \<Rightarrow> Segment list \<Rightarrow> py_exception + SegmentResult list" where
  "analyze_loop libs results' [] = Inr results'"
| "analyze_loop libs results' (segment # rest) =
     (case analyze_segment libs segment of
        Inl e \<Rightarrow> Inl e
      | Inr result \<Rightarrow> analyze_loop libs (results' @ [result]) rest)"

text \<open>
  \<open>POST /analyze\<close>: the response model on success; any exception of the loop becomes an
  \<open>HTTPException\<close> with status 500, whose body carries the detail and nothing else.
\<close>

definition analyze :: "libraries \<Rightarrow> AnalysisRequest \<Rightarrow> http_error + AnalysisResponse" where
  "analyze libs request =
     (case analyze_loop libs [] (segments request) of
        Inr results' \<Rightarrow> Inr \<lparr>success = True, error = None, results = results'\<rparr>
      | Inl e \<Rightarrow> Inl (HTTPException 500 (str_of e)))"

section \<open>The indicators of the heuristic\<close>

text \<open>
  The four amounts that the fallback adds to \<open>orality_indicators\<close>, each as the source
  computes it, named so that they can be stated on their own.
\<close>

definition discourse_indicator :: "string \<Rightarrow> real" where
  "discourse_indicator text =
     (let words = split (lower text);
          discourse_density = real (discourse_count text) / real (length words) * 100
      in min (discourse_density * 5) 25)"

definition pronoun_indicator :: "string \<Rightarrow> real" where
  "pronoun_indicator text =
     (let words = split (lower text);
          pronoun_density = real (pronoun_count words) / real (length words) * 100
      in min (pronoun_density * 3) 25)"

definition word_length_indicator :: "string \<Rightarrow> real" where
  "word_length_indicator text =
     (let words = split (lower text);
          avg_word_len = real (total_word_length words) / real (length words)
      in if avg_word_len < 4 then 25
         else if avg_word_len < 5 then 15
         else if avg_word_len < 6 then 5
         else 0)"

definition contraction_indicator :: "string \<Rightarrow> real" where
  "contraction_indicator text = min (real (contraction_count text * 5)) 25"

text \<open>
  Following the words of the specification, not the source: the number of occurrences
  of a marker in a text (the positions at which it starts), and the contraction
  indicator as five points for each occurrence of each marker, capped at 25.
\<close>

fun occurrences :: "string \<Rightarrow> string \<Rightarrow> nat" where
  "occurrences m [] = (if m = [] then 1 else 0)"
| "occurrences m (c # cs) = (if prefix m (c # cs) then 1 else 0) + occurrences m cs"

definition contraction_indicator_spec :: "string \<Rightarrow> real" where
  "contraction_indicator_spec text =
     min (real (sum_list (map (\<lambda>c. occurrences c (lower text)) contractions) * 5)) 25"

section \<open>Example inputs\<close>

text \<open>Stand-ins for the external libraries and some requests, to run the service on.\<close>

definition textstat_example :: textstat where
  "textstat_example =
     \<lparr>textstat.flesch_reading_ease = (\<lambda>t. Inr 120),
      textstat.flesch_kincaid_grade = (\<lambda>t. Inr 2),
      textstat.gunning_fog = (\<lambda>t. Inr 3),
      textstat.smog_index = (\<lambda>t. Inr 0),
      textstat.automated_readability_index = (\<lambda>t. Inr 1),
      textstat.coleman_liau_index = (\<lambda>t. Inr (- 4))\<rparr>"

definition tagger_example :: "string \<Rightarrow> py_exception + string list" where
  "tagger_example t =
     (if t = ''crash'' then Inl (LibraryError ''tagger failed'')
      else if t = [] then Inr []
      else Inr [''PRON'', ''AUX'', ''DET'', ''NOUN'', ''PUNCT''])"

definition libs_bare :: libraries where
  "libs_bare =
     \<lparr>nlp = None, coast = None, textstat_module = textstat_example, lingfeat = None\<rparr>"

definition libs_tagged :: libraries where
  "libs_tagged =
     \<lparr>nlp = Some tagger_example, coast = None, textstat_module = textstat_example,
      lingfeat = None\<rparr>"

definition libs_coast :: libraries where
  "libs_coast =
     \<lparr>nlp = Some tagger_example, coast = Some (\<lambda>t. Inr (17 / 10)),
      textstat_module = textstat_example, lingfeat = None\<rparr>"

definition request_312 :: AnalysisRequest where
  "request_312 =
     \<lparr>segments =
        [\<lparr>Segment.segment_index = 3, seg_text = '' So, well ''\<rparr>,
         \<lparr>Segment.segment_index = 1, seg_text = '' ''\<rparr>,
         \<lparr>Segment.segment_index = 2, seg_text = ''I am''\<rparr>]\<rparr>"

definition request_crash :: AnalysisRequest where
  "request_crash =
     \<lparr>segments =
        [\<lparr>Segment.segment_index = 3, seg_text = ''It is a dog.''\<rparr>,
         \<lparr>Segment.segment_index = 1, seg_text = '' crash ''\<rparr>,
         \<lparr>Segment.segment_index = 2, seg_text = ''fine''\<rparr>]\<rparr>"

section \<open>Containment and the batch loop\<close>

lemma str_contains_sublist: "str_contains m s = sublist m s"
  by (induction s) (simp_all add: sublist_Cons_right)

lemma analyze_segment_index:
  assumes "analyze_segment libs segment = Inr r"
  shows "SegmentResult.segment_index r = Segment.segment_index segment"
  using assms
  by (auto simp: analyze_segment_def Let_def split: sum.splits prod.splits)

lemma analyze_loop_all2:
  "analyze_loop libs acc segs = Inr rs \<Longrightarrow>
     \<exists>new. rs = acc @ new \<and> list_all2 (\<lambda>s r. analyze_segment libs s = Inr r) segs new"
proof (induction segs arbitrary: acc)
  case Nil
  then show ?case by simp
next
  case (Cons s segs)
  from Cons.prems obtain r where r: "analyze_segment libs s = Inr r"
    and rest: "analyze_loop libs (acc @ [r]) segs = Inr rs"
    by (auto split: sum.splits)
  from Cons.IH [OF rest] obtain new where "rs = (acc @ [r]) @ new"
    and "list_all2 (\<lambda>s r. analyze_segment libs s = Inr r) segs new" by blast
  with r show ?case by (intro exI [of _ "r # new"]) simp
qed

lemma analyze_loop_raises:
  "segment \<in> set segs \<Longrightarrow> analyze_segment libs segment = Inl e \<Longrightarrow>
     \<exists>e'. analyze_loop libs acc segs = Inl e'"
proof (induction segs arbitrary: acc)
  case Nil
  then show ?case by simp
next
  case (Cons s segs)
  show ?case
  proof (cases "analyze_segment libs s")
    case (Inl a)
    then show ?thesis by simp
  next
    case (Inr r)
    with Cons.prems have "segment \<in> set segs" by auto
    from Cons.IH [OF this Cons.prems(2)] Inr show ?thesis by simp
  qed
qed

text \<open>
  C2. When the request succeeds, the response holds one result per submitted segment, in
  the order of submission: the n-th result is the analysis of the n-th segment and
  carries its \<open>segment_index\<close>.
\<close>

theorem batch_mirrors_input:
  assumes "analyze libs request = Inr response"
  shows "success response
    \<and> length (results response) = length (segments request)
    \<and> list_all2 (\<lambda>s r. analyze_segment libs s = Inr r) (segments request) (results response)
    \<and> map SegmentResult.segment_index (results response)
        = map Segment.segment_index (segments request)"
proof -
  from assms obtain rs where loop: "analyze_loop libs [] (segments request) = Inr rs"
    and resp: "response = \<lparr>success = True, error = None, results = rs\<rparr>"
    by (auto simp: analyze_def split: sum.splits)
  from analyze_loop_all2 [OF loop]
  have all2: "list_all2 (\<lambda>s r. analyze_segment libs s = Inr r) (segments request) rs"
    by simp
  then have len: "length rs = length (segments request)"
    by (simp add: list_all2_lengthD)
  have "map SegmentResult.segment_index rs = map Segment.segment_index (segments request)"
    using all2 by (induction rule: list_all2_induct) (simp_all add: analyze_segment_index)
  with all2 len resp show ?thesis by simp
qed

text \<open>The segments with indices 3, 1, 2 come back with indices 3, 1, 2.\<close>

theorem batch_mirrors_input_witness:
  "\<exists>response. analyze libs_bare request_312 = Inr response
     \<and> length (results response) = 3
     \<and> map SegmentResult.segment_index (results response) = [3, 1, 2]"
proof -
  have "case analyze libs_bare request_312 of Inr r \<Rightarrow> True | Inl e \<Rightarrow> False"
    by code_simp
  then obtain response where ok: "analyze libs_bare request_312 = Inr response"
    by (cases "analyze libs_bare request_312") simp_all
  from batch_mirrors_input [OF ok] have
    "length (results response) = 3
     \<and> map SegmentResult.segment_index (results response) = [3, 1, 2]"
    by (simp add: request_312_def)
  with ok show ?thesis by (intro exI [of _ response]) simp
qed

text \<open>
  C3. When the analysis of any one segment of the request raises, the endpoint answers
  with the HTTP error of status 500 and with no response model, so with no result of any
  segment.
\<close>

theorem batch_all_or_nothing:
  assumes "segment \<in> set (segments request)"
    and "analyze_segment libs segment = Inl e"
  shows "(\<exists>detail. analyze libs request = Inl (HTTPException 500 detail))
    \<and> (\<forall>response. analyze libs request \<noteq> Inr response)"
proof -
  from analyze_loop_raises [OF assms]
  obtain e' where "analyze_loop libs [] (segments request) = Inl e'" by blast
  then show ?thesis by (simp add: analyze_def)
qed

theorem batch_all_or_nothing_witness:
  "\<lparr>Segment.segment_index = 1, seg_text = '' crash ''\<rparr> \<in> set (segments request_crash)
   \<and> analyze_segment libs_tagged \<lparr>Segment.segment_index = 1, seg_text = '' crash ''\<rparr>
       = Inl (LibraryError ''tagger failed'')
   \<and> (\<exists>detail. analyze libs_tagged request_crash = Inl (HTTPException 500 detail))
   \<and> (\<forall>response. analyze libs_tagged request_crash \<noteq> Inr response)"
proof -
  have mem: "\<lparr>Segment.segment_index = 1, seg_text = '' crash ''\<rparr> \<in> set (segments request_crash)"
    by (simp add: request_crash_def)
  have raises: "analyze_segment libs_tagged \<lparr>Segment.segment_index = 1, seg_text = '' crash ''\<rparr>
       = Inl (LibraryError ''tagger failed'')"
    by code_simp
  from batch_all_or_nothing [OF mem raises]
  have "(\<exists>detail. analyze libs_tagged request_crash = Inl (HTTPException 500 detail))
    \<and> (\<forall>response. analyze libs_tagged request_crash \<noteq> Inr response)" .
  with mem raises show ?thesis by (intro conjI) simp_all
qed

section \<open>The detector\<close>

text \<open>
  C9. The list of markers the detector returns has no duplicates, whatever the text: the
  lexicon is a set, so the words written in two of its categories are in it once.
\<close>

theorem markers_distinct: "distinct (extract_discourse_markers text)"
  by (simp add: extract_discourse_markers_def DISCOURSE_MARKERS_def Let_def)

section \<open>The part-of-speech buckets\<close>

lemma foldl_count_pos:
  "foldl count_pos c tags =
     \<lparr>nouns = nouns c + int (length (filter (\<lambda>t. t = ''NOUN'' \<or> t = ''PROPN'') tags)),
      verbs = verbs c + int (length (filter (\<lambda>t. t = ''VERB'' \<or> t = ''AUX'') tags)),
      adjectives = adjectives c + int (length (filter (\<lambda>t. t = ''ADJ'') tags)),
      adverbs = adverbs c + int (length (filter (\<lambda>t. t = ''ADV'') tags)),
      pronouns = pronouns c + int (length (filter (\<lambda>t. t = ''PRON'') tags)),
      prepositions = prepositions c + int (length (filter (\<lambda>t. t = ''ADP'') tags)),
      conjunctions = conjunctions c + int (length (filter (\<lambda>t. t = ''CCONJ'' \<or> t = ''SCONJ'') tags)),
      interjections = interjections c + int (length (filter (\<lambda>t. t = ''INTJ'') tags))\<rparr>"
proof (induction tags arbitrary: c)
  case Nil
  show ?case by simp
next
  case (Cons t tags)
  show ?case
    unfolding foldl_Cons Cons.IH
    by (simp add: count_pos_def)
qed

text \<open>
  C8. Without a tagger every count is zero, whatever the text. With a tagger, each bucket
  counts the tokens whose tag the table sends to it: NOUN and PROPN to nouns, VERB and AUX
  to verbs, ADJ, ADV, PRON, ADP to adjectives, adverbs, pronouns, prepositions, CCONJ and
  SCONJ to conjunctions, INTJ to interjections. A tag outside the table changes no count.
\<close>

theorem pos_buckets:
  "(nlp libs = None \<longrightarrow>
      analyze_pos libs text =
        Inr \<lparr>nouns = 0, verbs = 0, adjectives = 0, adverbs = 0, pronouns = 0,
             prepositions = 0, conjunctions = 0, interjections = 0\<rparr>)
   \<and> (\<forall>tagger tags. nlp libs = Some tagger \<and> tagger text = Inr tags \<longrightarrow>
        analyze_pos libs text =
          Inr \<lparr>nouns = int (length (filter (\<lambda>t. t = ''NOUN'' \<or> t = ''PROPN'') tags)),
               verbs = int (length (filter (\<lambda>t. t = ''VERB'' \<or> t = ''AUX'') tags)),
               adjectives = int (length (filter (\<lambda>t. t = ''ADJ'') tags)),
               adverbs = int (length (filter (\<lambda>t. t = ''ADV'') tags)),
               pronouns = int (length (filter (\<lambda>t. t = ''PRON'') tags)),
               prepositions = int (length (filter (\<lambda>t. t = ''ADP'') tags)),
               conjunctions = int (length (filter (\<lambda>t. t = ''CCONJ'' \<or> t = ''SCONJ'') tags)),
               interjections = int (length (filter (\<lambda>t. t = ''INTJ'') tags))\<rparr>)
   \<and> (\<forall>counts pos.
        pos \<notin> {''NOUN'', ''PROPN'', ''VERB'', ''AUX'', ''ADJ'', ''ADV'', ''PRON'', ''ADP'',
                 ''CCONJ'', ''SCONJ'', ''INTJ''}
        \<longrightarrow> count_pos counts pos = counts)"
proof (intro conjI allI impI)
  assume "nlp libs = None"
  then show "analyze_pos libs text =
        Inr \<lparr>nouns = 0, verbs = 0, adjectives = 0, adverbs = 0, pronouns = 0,
             prepositions = 0, conjunctions = 0, interjections = 0\<rparr>"
    by (simp add: analyze_pos_def POSCounts_default_def)
next
  fix tagger tags
  assume "nlp libs = Some tagger \<and> tagger text = Inr tags"
  then show "analyze_pos libs text =
          Inr \<lparr>nouns = int (length (filter (\<lambda>t. t = ''NOUN'' \<or> t = ''PROPN'') tags)),
               verbs = int (length (filter (\<lambda>t. t = ''VERB'' \<or> t = ''AUX'') tags)),
               adjectives = int (length (filter (\<lambda>t. t = ''ADJ'') tags)),
               adverbs = int (length (filter (\<lambda>t. t = ''ADV'') tags)),
               pronouns = int (length (filter (\<lambda>t. t = ''PRON'') tags)),
               prepositions = int (length (filter (\<lambda>t. t = ''ADP'') tags)),
               conjunctions = int (length (filter (\<lambda>t. t = ''CCONJ'' \<or> t = ''SCONJ'') tags)),
               interjections = int (length (filter (\<lambda>t. t = ''INTJ'') tags))\<rparr>"
    by (simp add: analyze_pos_def foldl_count_pos POSCounts_default_def)
next
  fix counts :: POSCounts and pos
  assume "pos \<notin> {''NOUN'', ''PROPN'', ''VERB'', ''AUX'', ''ADJ'', ''ADV'', ''PRON'', ''ADP'',
                 ''CCONJ'', ''SCONJ'', ''INTJ''}"
  then show "count_pos counts pos = counts"
    by (simp add: count_pos_def)
qed

theorem pos_buckets_witness:
  "analyze_pos libs_bare ''It is a dog.'' =
      Inr \<lparr>nouns = 0, verbs = 0, adjectives = 0, adverbs = 0, pronouns = 0,
           prepositions = 0, conjunctions = 0, interjections = 0\<rparr>
   \<and> analyze_pos libs_tagged ''It is a dog.'' =
      Inr \<lparr>nouns = 1, verbs = 1, adjectives = 0, adverbs = 0, pronouns = 1,
           prepositions = 0, conjunctions = 0, interjections = 0\<rparr>
   \<and> count_pos POSCounts_default ''PUNCT'' = POSCounts_default"
proof -
  have t: "tagger_example ''It is a dog.'' = Inr [''PRON'', ''AUX'', ''DET'', ''NOUN'', ''PUNCT'']"
    by (simp add: tagger_example_def)
  have 1: "analyze_pos libs_bare ''It is a dog.'' =
      Inr \<lparr>nouns = 0, verbs = 0, adjectives = 0, adverbs = 0, pronouns = 0,
           prepositions = 0, conjunctions = 0, interjections = 0\<rparr>"
    using pos_buckets [of libs_bare "''It is a dog.''"] by (simp add: libs_bare_def)
  have "nlp libs_tagged = Some tagger_example \<and> tagger_example ''It is a dog.''
          = Inr [''PRON'', ''AUX'', ''DET'', ''NOUN'', ''PUNCT'']"
    using t by (simp add: libs_tagged_def)
  with pos_buckets [of libs_tagged "''It is a dog.''"]
  have 2: "analyze_pos libs_tagged ''It is a dog.'' =
      Inr \<lparr>nouns = 1, verbs = 1, adjectives = 0, adverbs = 0, pronouns = 1,
           prepositions = 0, conjunctions = 0, interjections = 0\<rparr>"
    by simp
  have 3: "count_pos POSCounts_default ''PUNCT'' = POSCounts_default"
    using pos_buckets [of libs_bare "''x''"] by simp
  from 1 2 3 show ?thesis by simp
qed

section \<open>Blank texts and words\<close>

lemma strip_eq_Nil_iff: "strip s = [] \<longleftrightarrow> (\<forall>c\<in>set s. is_space c)"
proof
  assume "strip s = []"
  then have all: "\<forall>c\<in>set (dropWhile is_space s). is_space c"
    by (simp add: strip_def)
  have "dropWhile is_space s = []"
  proof (rule ccontr)
    assume ne: "dropWhile is_space s \<noteq> []"
    then have "\<not> is_space (hd (dropWhile is_space s))" by (rule hd_dropWhile)
    moreover from ne have "hd (dropWhile is_space s) \<in> set (dropWhile is_space s)" by simp
    ultimately show False using all by blast
  qed
  then show "\<forall>c\<in>set s. is_space c" by simp
next
  assume "\<forall>c\<in>set s. is_space c"
  then show "strip s = []" by (auto simp: strip_def dest: set_dropWhileD)
qed

lemma split_run_nonempty:
  "cur \<noteq> [] \<or> (\<exists>c\<in>set s. \<not> is_space c) \<Longrightarrow> split_run cur s \<noteq> []"
  by (induction s arbitrary: cur) auto

lemma code_point_bound: "code_point c < 256"
  by (simp add: code_point_def)

lemma is_space_lower_char: "is_space (lower_char c) = is_space c"
  using code_point_bound [of c]
  by (auto simp: is_space_def lower_char_def Let_def code_point_def)

lemma split_lower_nonempty:
  assumes "strip text \<noteq> []"
  shows "split (lower text) \<noteq> []"
proof -
  from assms obtain c where "c \<in> set text" "\<not> is_space c"
    by (auto simp: strip_eq_Nil_iff)
  then have "\<exists>d\<in>set (lower text). \<not> is_space d"
    by (auto simp: lower_def is_space_lower_char)
  then show ?thesis by (simp add: split_def split_run_nonempty)
qed

section \<open>The scores\<close>

lemma heuristic_orality_blank: "strip text = [] \<Longrightarrow> heuristic_orality text = Inr 50"
  by (simp add: heuristic_orality_def)

lemma heuristic_orality_sum:
  assumes "strip text \<noteq> []"
  shows "heuristic_orality text =
    Inr (discourse_indicator text + pronoun_indicator text + word_length_indicator text
         + contraction_indicator text)"
proof -
  from assms have "split (lower text) \<noteq> []" by (rule split_lower_nonempty)
  then have wc: "0 < length (split (lower text))" by simp
  have "heuristic_orality text =
    Inr ((discourse_indicator text + pronoun_indicator text + word_length_indicator text
          + contraction_indicator text) / 100 * 100)"
    using assms wc
    by (simp add: heuristic_orality_def truediv_def Let_def discourse_indicator_def
        pronoun_indicator_def word_length_indicator_def contraction_indicator_def)
  then show ?thesis by simp
qed

lemma discourse_indicator_range: "0 \<le> discourse_indicator text \<and> discourse_indicator text \<le> 25"
  by (simp add: discourse_indicator_def Let_def)

lemma pronoun_indicator_range: "0 \<le> pronoun_indicator text \<and> pronoun_indicator text \<le> 25"
  by (simp add: pronoun_indicator_def Let_def)

lemma word_length_indicator_range:
  "0 \<le> word_length_indicator text \<and> word_length_indicator text \<le> 25"
  by (simp add: word_length_indicator_def Let_def)

lemma contraction_indicator_range:
  "0 \<le> contraction_indicator text \<and> contraction_indicator text \<le> 25"
  by (simp add: contraction_indicator_def)

lemma heuristic_orality_range: "\<exists>v. heuristic_orality text = Inr v \<and> 0 \<le> v \<and> v \<le> 100"
proof (cases "strip text = []")
  case True
  then show ?thesis by (simp add: heuristic_orality_blank)
next
  case False
  from discourse_indicator_range [of "text"] pronoun_indicator_range [of "text"]
    word_length_indicator_range [of "text"] contraction_indicator_range [of "text"]
  show ?thesis unfolding heuristic_orality_sum [OF False] by force
qed

lemma analyze_orality_range: "\<exists>v. analyze_orality libs text = Inr v \<and> 0 \<le> v \<and> v \<le> 100"
  using heuristic_orality_range [of "text"]
  by (auto simp: analyze_orality_def split: option.splits sum.splits)

lemma analyze_readability_range:
  "0 \<le> fst (analyze_readability libs text) \<and> fst (analyze_readability libs text) \<le> 100"
  by (simp add: analyze_readability_def Let_def split: sum.splits)

lemma round2_range:
  assumes "0 \<le> x" "x \<le> 100"
  shows "0 \<le> round2 x \<and> round2 x \<le> 100"
proof -
  define f where "f = \<lfloor>x * 100\<rfloor>"
  from assms have f0: "0 \<le> f" by (simp add: f_def)
  from assms have "x * 100 \<le> 10000" by simp
  then have f1: "f \<le> 10000" unfolding f_def by (simp add: floor_le_iff)
  have up: "f + 1 \<le> 10000" if "x * 100 - of_int f > 0"
  proof -
    from that have "of_int f < x * 100" by simp
    with \<open>x * 100 \<le> 10000\<close> have "(of_int f :: real) < 10000" by linarith
    then have "f < 10000" by linarith
    then show ?thesis by simp
  qed
  have "round2 x = of_int f / 100 \<or> (round2 x = of_int (f + 1) / 100 \<and> x * 100 - of_int f > 0)"
    unfolding round2_def Let_def f_def [symmetric] by auto
  then show ?thesis
  proof
    assume "round2 x = of_int f / 100"
    with f0 f1 show ?thesis by simp
  next
    assume a: "round2 x = of_int (f + 1) / 100 \<and> x * 100 - of_int f > 0"
    then have "f + 1 \<le> 10000" using up by blast
    then have "(of_int (f + 1) :: real) \<le> 10000" by linarith
    moreover from f0 have "(0::real) \<le> of_int (f + 1)" by simp
    ultimately show ?thesis using a by simp
  qed
qed

text \<open>
  C1. For every text and whatever the libraries do, the orality scorer returns, and
  returns a score between 0 and 100; the primary score of the readability adapter is
  between 0 and 100; so are the two scores, rounded, of every segment result.
\<close>

theorem scores_in_range:
  "(\<exists>v. analyze_orality libs text = Inr v \<and> 0 \<le> v \<and> v \<le> 100)
   \<and> 0 \<le> fst (analyze_readability libs text)
   \<and> fst (analyze_readability libs text) \<le> 100
   \<and> (\<forall>r. analyze_segment libs segment = Inr r \<longrightarrow>
          0 \<le> orality_score r \<and> orality_score r \<le> 100
          \<and> 0 \<le> readability_score r \<and> readability_score r \<le> 100)"
proof (intro conjI allI impI)
  show "\<exists>v. analyze_orality libs text = Inr v \<and> 0 \<le> v \<and> v \<le> 100"
    by (rule analyze_orality_range)
  show "0 \<le> fst (analyze_readability libs text)"
    using analyze_readability_range by blast
  show "fst (analyze_readability libs text) \<le> 100"
    using analyze_readability_range by blast
next
  fix r
  assume seg: "analyze_segment libs segment = Inr r"
  define t where "t = strip (Segment.seg_text segment)"
  from analyze_orality_range [of libs t] obtain v
    where v: "analyze_orality libs t = Inr v" "0 \<le> v" "v \<le> 100" by blast
  from seg v(1) have o: "orality_score r = round2 v"
    by (auto simp: analyze_segment_def Let_def t_def split: sum.splits prod.splits)
  from seg have rd: "readability_score r = round2 (fst (analyze_readability libs t))"
    by (auto simp: analyze_segment_def Let_def t_def split: sum.splits prod.splits)
  from round2_range [OF v(2) v(3)] o
  show "0 \<le> orality_score r" "orality_score r \<le> 100" by simp_all
  from analyze_readability_range [of libs t]
  have "0 \<le> fst (analyze_readability libs t)" "fst (analyze_readability libs t) \<le> 100"
    by simp_all
  from round2_range [OF this] rd
  show "0 \<le> readability_score r" "readability_score r \<le> 100" by simp_all
qed

theorem scores_in_range_witness:
  "analyze_orality libs_coast ''I am'' = Inr 100
   \<and> fst (analyze_readability libs_coast ''I am'') = 100
   \<and> (\<exists>r. analyze_segment libs_coast \<lparr>Segment.segment_index = 7, seg_text = ''I am''\<rparr> = Inr r
        \<and> 0 \<le> orality_score r \<and> orality_score r \<le> 100
        \<and> 0 \<le> readability_score r \<and> readability_score r \<le> 100)"
proof -
  have 1: "analyze_orality libs_coast ''I am'' = Inr 100"
    by (simp add: analyze_orality_def libs_coast_def)
  have "strip ''I am'' \<noteq> []" by code_simp
  then have 2: "fst (analyze_readability libs_coast ''I am'') = 100"
    by (simp add: analyze_readability_def libs_coast_def textstat_example_def
        readability_calls_def)
  have "case analyze_segment libs_coast \<lparr>Segment.segment_index = 7, seg_text = ''I am''\<rparr>
        of Inr r \<Rightarrow> True | Inl e \<Rightarrow> False"
    by code_simp
  then obtain r where
    r: "analyze_segment libs_coast \<lparr>Segment.segment_index = 7, seg_text = ''I am''\<rparr> = Inr r"
    by (cases "analyze_segment libs_coast \<lparr>Segment.segment_index = 7, seg_text = ''I am''\<rparr>")
       simp_all
  from scores_in_range [of libs_coast "''I am''"
      "\<lparr>Segment.segment_index = 7, seg_text = ''I am''\<rparr>"] r
  have "0 \<le> orality_score r \<and> orality_score r \<le> 100
        \<and> 0 \<le> readability_score r \<and> readability_score r \<le> 100"
    by blast
  with 1 2 r show ?thesis by blast
qed

text \<open>
  C10. The fallback never divides by zero and always returns: a text that is not blank
  has at least one word, so the three divisions by the word count have a positive
  divisor, the total weight is 100, and no \<open>ZeroDivisionError\<close> is raised, for any text.
\<close>

theorem heuristic_total:
  "(strip text \<noteq> [] \<longrightarrow> 0 < length (split (lower text)))
   \<and> (\<exists>v. heuristic_orality text = Inr v)
   \<and> (\<exists>v. analyze_orality libs text = Inr v)"
proof (intro conjI impI)
  assume "strip text \<noteq> []"
  then have "split (lower text) \<noteq> []" by (rule split_lower_nonempty)
  then show "0 < length (split (lower text))" by simp
next
  show "\<exists>v. heuristic_orality text = Inr v"
    using heuristic_orality_range by blast
  show "\<exists>v. analyze_orality libs text = Inr v"
    using analyze_orality_range by blast
qed

theorem heuristic_total_witness:
  "strip '' So, well '' \<noteq> [] \<and> length (split (lower '' So, well '')) = 2
   \<and> (\<exists>v. heuristic_orality '' So, well '' = Inr v)"
proof -
  have ne: "strip '' So, well '' \<noteq> []" by code_simp
  have len: "length (split (lower '' So, well '')) = 2" by code_simp
  from heuristic_total [of "'' So, well ''" libs_bare] ne len show ?thesis by blast
qed

section \<open>Blank segments and the example text\<close>

lemma round2_50: "round2 50 = 50"
  by (simp add: round2_def Let_def)

lemma round2_0: "round2 0 = 0"
  by (simp add: round2_def Let_def)

lemma extract_discourse_markers_Nil: "extract_discourse_markers [] = []"
  by code_simp

lemma strip_Nil: "strip [] = []"
  by (simp add: strip_def)

text \<open>
  C5. A segment whose text is empty or all whitespace, analysed without the orality model:
  orality 50, readability 0, no discourse marker, every part-of-speech count zero. The
  tagger, when there is one, is taken to yield no token on the empty text, as a tokenizer
  does.
\<close>

theorem blank_segment:
  assumes blank: "\<forall>c\<in>set (Segment.seg_text segment). is_space c"
    and no_model: "coast libs = None"
    and tagger: "nlp libs = None \<or> (\<exists>tagger. nlp libs = Some tagger \<and> tagger [] = Inr [])"
  shows "\<exists>r. analyze_segment libs segment = Inr r
    \<and> SegmentResult.seg_text r = []
    \<and> orality_score r = 50
    \<and> readability_score r = 0
    \<and> discourse_markers r = []
    \<and> parts_of_speech r =
        \<lparr>nouns = 0, verbs = 0, adjectives = 0, adverbs = 0, pronouns = 0,
         prepositions = 0, conjunctions = 0, interjections = 0\<rparr>"
proof -
  from blank have t: "strip (Segment.seg_text segment) = []"
    by (simp add: strip_eq_Nil_iff)
  from tagger have pos: "analyze_pos libs [] = Inr POSCounts_default"
    by (auto simp: analyze_pos_def)
  have rd: "analyze_readability libs [] = (0, ReadabilityMetrics_default)"
    by (simp add: analyze_readability_def strip_Nil)
  from no_model have orl: "analyze_orality libs [] = Inr 50"
    by (simp add: analyze_orality_def heuristic_orality_blank strip_Nil)
  show ?thesis
    by (simp add: analyze_segment_def t pos rd orl extract_discourse_markers_Nil
        round2_50 round2_0 POSCounts_default_def)
qed

theorem blank_segment_witness:
  "list_all is_space [CHR '' '', CHR 0x09, CHR 0x0A]
   \<and> coast libs_tagged = None
   \<and> (\<exists>tagger. nlp libs_tagged = Some tagger \<and> tagger [] = Inr [])
   \<and> (\<exists>r. analyze_segment libs_tagged
              \<lparr>Segment.segment_index = 4, seg_text = [CHR '' '', CHR 0x09, CHR 0x0A]\<rparr> = Inr r
        \<and> orality_score r = 50 \<and> readability_score r = 0 \<and> discourse_markers r = []
        \<and> parts_of_speech r =
            \<lparr>nouns = 0, verbs = 0, adjectives = 0, adverbs = 0, pronouns = 0,
             prepositions = 0, conjunctions = 0, interjections = 0\<rparr>)"
proof -
  have la: "list_all is_space [CHR '' '', CHR 0x09, CHR 0x0A]"
    by (simp add: is_space_def code_point_def)
  then have b: "\<forall>c\<in>set (Segment.seg_text
      \<lparr>Segment.segment_index = 4, seg_text = [CHR '' '', CHR 0x09, CHR 0x0A]\<rparr>). is_space c"
    by (simp add: list_all_iff)
  have c: "coast libs_tagged = None" by (simp add: libs_tagged_def)
  have n: "\<exists>tagger. nlp libs_tagged = Some tagger \<and> tagger [] = Inr []"
    by (simp add: libs_tagged_def tagger_example_def)
  then have n': "nlp libs_tagged = None
      \<or> (\<exists>tagger. nlp libs_tagged = Some tagger \<and> tagger [] = Inr [])" ..
  from blank_segment [OF b c n']
  have main: "\<exists>r. analyze_segment libs_tagged
              \<lparr>Segment.segment_index = 4, seg_text = [CHR '' '', CHR 0x09, CHR 0x0A]\<rparr> = Inr r
        \<and> orality_score r = 50 \<and> readability_score r = 0 \<and> discourse_markers r = []
        \<and> parts_of_speech r =
            \<lparr>nouns = 0, verbs = 0, adjectives = 0, adverbs = 0, pronouns = 0,
             prepositions = 0, conjunctions = 0, interjections = 0\<rparr>"
    by blast
  from la c n main show ?thesis by (intro conjI)
qed

text \<open>
  C7. Without the orality model, the text of the example gets the score 70, above 50:
  four lexicon entries are contained in it ("i think", "kind of", and also "no" and "now"
  inside "know"), two of its eight words are personal pronouns, its words are 4.5
  characters long on average, and one contraction marker is contained in it.
\<close>

theorem example_orality:
  assumes "coast libs = None"
  shows "analyze_orality libs ''I think it's kind of complicated, you know?'' = Inr 70
    \<and> (\<exists>v. analyze_orality libs ''I think it's kind of complicated, you know?'' = Inr v
          \<and> 50 < v)"
proof -
  have "heuristic_orality ''I think it's kind of complicated, you know?'' = Inr 70"
    by code_simp
  with assms show ?thesis by (simp add: analyze_orality_def)
qed

theorem example_orality_witness:
  "coast libs_bare = None
   \<and> analyze_orality libs_bare ''I think it's kind of complicated, you know?'' = Inr 70"
proof -
  have c: "coast libs_bare = None" by (simp add: libs_bare_def)
  from example_orality [OF c] c show ?thesis by simp
qed

text \<open>The counts behind the score of the example text.\<close>

lemma example_counts:
  "discourse_count ''I think it's kind of complicated, you know?'' = 4
   \<and> pronoun_count (split (lower ''I think it's kind of complicated, you know?'')) = 2
   \<and> length (split (lower ''I think it's kind of complicated, you know?'')) = 8
   \<and> total_word_length (split (lower ''I think it's kind of complicated, you know?'')) = 36
   \<and> contraction_count ''I think it's kind of complicated, you know?'' = 1"
  by code_simp

section \<open>Whole-token matching and the contraction indicator\<close>

lemma word_boundary_append:
  "word_boundary (xs @ ys) (length xs) \<longleftrightarrow>
     ((ys \<noteq> [] \<and> is_word (hd ys)) \<noteq> (xs \<noteq> [] \<and> is_word (last xs)))"
proof (cases "xs = []")
  case True
  then show ?thesis by (cases ys) (simp_all add: word_boundary_def)
next
  case xs: False
  then have l: "(xs @ ys) ! (length xs - 1) = last xs"
    by (simp add: nth_append last_conv_nth)
  show ?thesis
  proof (cases ys)
    case Nil
    with xs l show ?thesis by (simp add: word_boundary_def)
  next
    case (Cons y ys')
    with xs l show ?thesis by (simp add: word_boundary_def Let_def)
  qed
qed

lemma re_search_bounded_iff:
  "re_search_bounded m s \<longleftrightarrow>
     (\<exists>i\<le>length s. word_boundary s i \<and> take (length m) (drop i s) = m
        \<and> word_boundary s (i + length m))"
  unfolding re_search_bounded_def list_ex_iff set_upt Bex_def atLeastLessThan_iff
  by (simp only: less_Suc_eq_le le0 simp_thms)

lemma re_search_bounded_decomp:
  "re_search_bounded m s \<longleftrightarrow>
     (\<exists>pre post. s = pre @ m @ post
        \<and> word_boundary (pre @ m @ post) (length pre)
        \<and> word_boundary ((pre @ m) @ post) (length (pre @ m)))"
proof
  assume "re_search_bounded m s"
  then obtain i where i: "i \<le> length s" "word_boundary s i"
    "take (length m) (drop i s) = m" "word_boundary s (i + length m)"
    by (auto simp: re_search_bounded_iff)
  define pre where "pre = take i s"
  define post where "post = drop (length m) (drop i s)"
  have "drop i s = take (length m) (drop i s) @ post"
    by (simp only: post_def append_take_drop_id)
  with i(3) have d: "drop i s = m @ post" by simp
  have "s = pre @ drop i s" by (simp add: pre_def)
  with d have s: "s = pre @ m @ post" by simp
  from i(1) have len: "length pre = i" by (simp add: pre_def)
  from i(2) i(4) s len show "\<exists>pre post. s = pre @ m @ post
        \<and> word_boundary (pre @ m @ post) (length pre)
        \<and> word_boundary ((pre @ m) @ post) (length (pre @ m))"
    by (intro exI [of _ pre] exI [of _ post]) (auto simp: add.commute)
next
  assume "\<exists>pre post. s = pre @ m @ post
        \<and> word_boundary (pre @ m @ post) (length pre)
        \<and> word_boundary ((pre @ m) @ post) (length (pre @ m))"
  then obtain pre post where s: "s = pre @ m @ post"
    and b1: "word_boundary (pre @ m @ post) (length pre)"
    and b2: "word_boundary ((pre @ m) @ post) (length (pre @ m))" by blast
  have "length pre \<le> length s" by (simp add: s)
  moreover have "take (length m) (drop (length pre) s) = m" by (simp add: s)
  moreover from b1 have "word_boundary s (length pre)" by (simp add: s)
  moreover from b2 have "word_boundary s (length pre + length m)" by (simp add: s)
  ultimately show "re_search_bounded m s"
    unfolding re_search_bounded_iff by blast
qed

lemma bounded_match_whole:
  assumes "m \<noteq> []" "is_word (hd m)" "is_word (last m)"
  shows "re_search_bounded m s \<longleftrightarrow>
     (\<exists>pre post. s = pre @ m @ post
        \<and> (pre = [] \<or> \<not> is_word (last pre))
        \<and> (post = [] \<or> \<not> is_word (hd post)))"
proof -
  have 1: "word_boundary (pre @ m @ post) (length pre) \<longleftrightarrow> (pre = [] \<or> \<not> is_word (last pre))"
    for pre post
    using assms by (auto simp: word_boundary_append)
  have 2: "word_boundary ((pre @ m) @ post) (length (pre @ m))
      \<longleftrightarrow> (post = [] \<or> \<not> is_word (hd post))" for pre post
    using assms word_boundary_append [of "pre @ m" post] by auto
  show ?thesis unfolding re_search_bounded_decomp 1 2 ..
qed

lemma markers_wordy:
  "\<forall>m\<in>set DISCOURSE_MARKERS. m \<noteq> [] \<and> is_word (hd m) \<and> is_word (last m)"
proof -
  have "list_all (\<lambda>m. m \<noteq> [] \<and> is_word (hd m) \<and> is_word (last m)) DISCOURSE_MARKERS"
    by code_simp
  then show ?thesis by (simp add: list_all_iff)
qed

text \<open>
  C4. The detector returns a marker exactly when the marker is in the lexicon and occurs
  in the lower-cased text as a whole token or phrase: at some occurrence, the character
  before it, if any, and the character after it, if any, are not word characters. So
  "Gasoline is expensive" yields neither "so" nor "as".
\<close>

theorem markers_whole_token:
  "(m \<in> set (extract_discourse_markers text) \<longleftrightarrow>
      m \<in> set DISCOURSE_MARKERS
      \<and> (\<exists>pre post. lower text = pre @ m @ post
            \<and> (pre = [] \<or> \<not> is_word (last pre))
            \<and> (post = [] \<or> \<not> is_word (hd post))))
   \<and> ''so'' \<notin> set (extract_discourse_markers ''Gasoline is expensive'')
   \<and> ''as'' \<notin> set (extract_discourse_markers ''Gasoline is expensive'')"
proof (intro conjI)
  show "m \<in> set (extract_discourse_markers text) \<longleftrightarrow>
      m \<in> set DISCOURSE_MARKERS
      \<and> (\<exists>pre post. lower text = pre @ m @ post
            \<and> (pre = [] \<or> \<not> is_word (last pre))
            \<and> (post = [] \<or> \<not> is_word (hd post)))"
  proof (cases "m \<in> set DISCOURSE_MARKERS")
    case False
    then show ?thesis by (simp add: extract_discourse_markers_def Let_def)
  next
    case True
    with markers_wordy have w: "m \<noteq> []" "is_word (hd m)" "is_word (last m)" by auto
    have sub: "str_contains m (lower text)" if "lower text = pre @ m @ post" for pre post
      unfolding str_contains_sublist sublist_def using that by blast
    from True have "m \<in> set (extract_discourse_markers text) \<longleftrightarrow>
        str_contains m (lower text) \<and> re_search_bounded m (lower text)"
      by (simp add: extract_discourse_markers_def Let_def)
    also have "\<dots> \<longleftrightarrow> re_search_bounded m (lower text)"
      unfolding bounded_match_whole [OF w] using sub by blast
    finally show ?thesis using True by (simp add: bounded_match_whole [OF w])
  qed
next
  have e: "extract_discourse_markers ''Gasoline is expensive'' = []" by code_simp
  show "''so'' \<notin> set (extract_discourse_markers ''Gasoline is expensive'')"
    unfolding e by simp
  show "''as'' \<notin> set (extract_discourse_markers ''Gasoline is expensive'')"
    unfolding e by simp
qed

theorem markers_whole_token_witness:
  "''so'' \<in> set (extract_discourse_markers ''So, it is'')
   \<and> (\<exists>pre post. lower ''So, it is'' = pre @ ''so'' @ post
         \<and> (pre = [] \<or> \<not> is_word (last pre))
         \<and> (post = [] \<or> \<not> is_word (hd post)))"
proof -
  have mem: "''so'' \<in> set (extract_discourse_markers ''So, it is'')" by code_simp
  with markers_whole_token [of "''so''" "''So, it is''"] show ?thesis by blast
qed

text \<open>
  C6, as the source has it. The contraction indicator is five points for each of the
  seven markers that the lower-cased text contains, however often it contains it, capped
  at 25; it is the fourth summand of the score of a text that is not blank.
\<close>

theorem contraction_indicator_presence:
  "contraction_indicator text =
      min (5 * real (card {c \<in> set contractions. str_contains c (lower text)})) 25
   \<and> (strip text \<noteq> [] \<longrightarrow>
        heuristic_orality text =
          Inr (discourse_indicator text + pronoun_indicator text
               + word_length_indicator text + contraction_indicator text))"
proof (intro conjI impI)
  have "distinct contractions" by (simp add: contractions_def)
  then have "distinct (filter (\<lambda>c. str_contains c (lower text)) contractions)"
    by simp
  from distinct_card [OF this]
  have "contraction_count text = card {c \<in> set contractions. str_contains c (lower text)}"
    by (simp add: contraction_count_def)
  then show "contraction_indicator text =
      min (5 * real (card {c \<in> set contractions. str_contains c (lower text)})) 25"
    by (simp add: contraction_indicator_def mult.commute)
next
  assume "strip text \<noteq> []"
  then show "heuristic_orality text =
          Inr (discourse_indicator text + pronoun_indicator text
               + word_length_indicator text + contraction_indicator text)"
    by (rule heuristic_orality_sum)
qed

theorem contraction_indicator_presence_witness:
  "strip ''It's Bob's'' \<noteq> []
   \<and> contraction_indicator ''It's Bob's'' = 5
   \<and> heuristic_orality ''It's Bob's'' =
        Inr (discourse_indicator ''It's Bob's'' + pronoun_indicator ''It's Bob's''
             + word_length_indicator ''It's Bob's'' + contraction_indicator ''It's Bob's'')"
proof -
  have ne: "strip ''It's Bob's'' \<noteq> []" by code_simp
  have "contraction_count ''It's Bob's'' = 1" by code_simp
  then have five: "contraction_indicator ''It's Bob's'' = 5"
    by (simp add: contraction_indicator_def)
  from contraction_indicator_presence [of "''It's Bob's''"] ne five show ?thesis by blast
qed

text \<open>
  The claim as stated fails: the text "It's Bob's" has two occurrences of the marker
  \<open>'s\<close> and none of another marker, so ten points by the count of occurrences, and the
  source gives it five.
\<close>

theorem contraction_occurrences_counterexample:
  "occurrences '''s'' (lower ''It's Bob's'') = 2
   \<and> contraction_indicator_spec ''It's Bob's'' = 10
   \<and> contraction_indicator ''It's Bob's'' = 5"
proof -
  have 1: "occurrences '''s'' (lower ''It's Bob's'') = 2" by code_simp
  have "sum_list (map (\<lambda>c. occurrences c (lower ''It's Bob's'')) contractions) = 2"
    by code_simp
  then have 2: "contraction_indicator_spec ''It's Bob's'' = 10"
    by (simp add: contraction_indicator_spec_def)
  have "contraction_count ''It's Bob's'' = 1" by code_simp
  then have 3: "contraction_indicator ''It's Bob's'' = 5"
    by (simp add: contraction_indicator_def)
  from 1 2 3 show ?thesis by simp
qed

end
